theory Spec2Isabelle
  imports Main "HOL-Library.AList"
begin

section \<open>Python values, exceptions and dictionaries\<close>

text \<open>
  The module \<^verbatim>\<open>phy/cluster/manual/store.py\<close> keeps per-cluster data in Python
  dictionaries. A dictionary is modelled as an association list in insertion order:
  \<open>map_of\<close> reads a key, \<open>AList.update\<close> is \<^verbatim>\<open>d[k] = v\<close> (in place for a known key,
  appended for a new one), \<open>AList.delete\<close> is \<^verbatim>\<open>del d[k]\<close> and \<open>map fst\<close> is
  \<^verbatim>\<open>d.keys()\<close>. A Python dictionary never holds a key twice; where a statement depends
  on that, it assumes \<open>distinct (map fst d)\<close>.

  A stored value is a \<open>'v option\<close>: \<open>None\<close> is Python's \<^verbatim>\<open>None\<close>. Cluster ids are
  Python integers, field names are strings. Every exception the module raises is a
  constructor of \<open>error\<close>, and a function that may raise returns \<open>error + 'a\<close>.
\<close>

datatype error =
    AssertionError
  | AttributeError
  | IndexError
  | KeyError
  | NotImplementedError
  | RuntimeError
  | TypeError
  | ValueError

type_synonym 'v fields = "(string \<times> 'v option) list"

text \<open>\<^verbatim>\<open>d.get(k, default)\<close>\<close>

definition dict_get :: "'a \<Rightarrow> ('k \<times> 'a) list \<Rightarrow> 'k \<Rightarrow> 'a" where
  "dict_get dflt d k = (case map_of d k of None \<Rightarrow> dflt | Some v \<Rightarrow> v)"

text \<open>\<^verbatim>\<open>d.update(e)\<close>: the items of \<open>e\<close> are written into \<open>d\<close> one after the other.\<close>

definition dict_update :: "('k \<times> 'a) list \<Rightarrow> ('k \<times> 'a) list \<Rightarrow> ('k \<times> 'a) list" where
  "dict_update d e = fold (\<lambda>(k, v) acc. AList.update k v acc) e d"

text \<open>The dictionary comprehension \<^verbatim>\<open>{key: f(key) for key in keys}\<close>.\<close>

definition dict_comp :: "('k \<Rightarrow> 'a) \<Rightarrow> 'k list \<Rightarrow> ('k \<times> 'a) list" where
  "dict_comp f keys = fold (\<lambda>k acc. AList.update k (f k) acc) keys []"

text \<open>
  The comprehension \<^verbatim>\<open>{k: data[k] for k in keys}\<close> of \<^verbatim>\<open>Store.store\<close>. There
  \<open>keys\<close> is a sublist of \<^verbatim>\<open>data.keys()\<close>, so \<^verbatim>\<open>data[k]\<close> always finds its key.
\<close>

definition dict_select :: "('k \<times> 'a) list \<Rightarrow> 'k list \<Rightarrow> ('k \<times> 'a) list" where
  "dict_select data keys =
     fold (\<lambda>k acc. case map_of data k of None \<Rightarrow> acc | Some v \<Rightarrow> AList.update k v acc) keys []"

text \<open>
  The \<^verbatim>\<open>keys\<close> argument of the \<^verbatim>\<open>load\<close> methods: \<^verbatim>\<open>None\<close>, one string, a list
  or a tuple of strings, or any other object. A \<^verbatim>\<open>load\<close> returns either one value
  (for a string) or a dictionary.
\<close>

datatype keys = KNone | KStr string | KList "string list" | KTuple "string list" | KOther

datatype 'v loaded = Value "'v option" | Dict "'v fields"

section \<open>MemoryStore\<close>

record 'v MemoryStore =
  ds :: "(int \<times> 'v fields) list"

definition MemoryStore_init :: "'v MemoryStore" where
  "MemoryStore_init = \<lparr>ds = []\<rparr>"

definition MemoryStore_store :: "int \<Rightarrow> 'v fields \<Rightarrow> 'v MemoryStore \<Rightarrow> 'v MemoryStore" where
  "MemoryStore_store cluster data m =
     (let ds1 = (if cluster \<notin> set (map fst (ds m)) then AList.update cluster [] (ds m) else ds m)
      in m\<lparr>ds := AList.map_entry cluster (\<lambda>r. dict_update r data) ds1\<rparr>)"

definition MemoryStore_load :: "int \<Rightarrow> keys \<Rightarrow> 'v MemoryStore \<Rightarrow> error + 'v loaded" where
  "MemoryStore_load cluster ks m =
     (case ks of
        KNone \<Rightarrow> Inr (Dict (dict_get [] (ds m) cluster))
      | KStr key \<Rightarrow> Inr (Value (dict_get None (dict_get [] (ds m) cluster) key))
      | KList keys \<Rightarrow>
          Inr (Dict (dict_comp (\<lambda>key. dict_get None (dict_get [] (ds m) cluster) key) keys))
      | KTuple keys \<Rightarrow>
          Inr (Dict (dict_comp (\<lambda>key. dict_get None (dict_get [] (ds m) cluster) key) keys))
      | KOther \<Rightarrow> Inl AssertionError)"

definition MemoryStore_clusters :: "'v MemoryStore \<Rightarrow> int list" where
  "MemoryStore_clusters m = sort (map fst (ds m))"

definition MemoryStore_delete :: "int list \<Rightarrow> 'v MemoryStore \<Rightarrow> 'v MemoryStore" where
  "MemoryStore_delete clusters m =
     m\<lparr>ds := fold (\<lambda>cluster d. if cluster \<in> set (map fst d) then AList.delete cluster d else d)
                clusters (ds m)\<rparr>"

definition MemoryStore_clear :: "'v MemoryStore \<Rightarrow> 'v MemoryStore" where
  "MemoryStore_clear m = MemoryStore_delete (MemoryStore_clusters m) m"

section \<open>DiskStore\<close>

text \<open>
  Modelled from the spec: the HDF5 layer (\<^verbatim>\<open>open_h5\<close> of \<^verbatim>\<open>phy/io/h5.py\<close>,
  \<^verbatim>\<open>load_h5\<close> and \<^verbatim>\<open>save_h5\<close> of \<^verbatim>\<open>phy/io/sparse.py\<close>) is not among the sources.
  The specification describes it as one keyed container per cluster, at a path derived
  from the cluster id, with \<^verbatim>\<open>exists\<close>, \<^verbatim>\<open>get\<close>, \<^verbatim>\<open>put\<close> with overwriting, and the list
  of the keys. A \<^verbatim>\<open>DiskStore\<close> keeps one such file per cluster in its directory, named
  \<^verbatim>\<open>'{0:05d}.h5'\<close> after the cluster id. The state of the directory is a dictionary from
  the cluster id that a file name decodes to, to the datasets of that file; reading gives
  back what was written, and the input and output errors of the backend are left out.
\<close>

record 'v DiskStore =
  files :: "(int \<times> 'v fields) list"

definition DiskStore_init :: "(int \<times> 'v fields) list \<Rightarrow> 'v DiskStore" where
  "DiskStore_init directory = \<lparr>files = directory\<rparr>"

definition cluster_file_exists :: "int \<Rightarrow> 'v DiskStore \<Rightarrow> bool" where
  "cluster_file_exists cluster d = (cluster \<in> set (map fst (files d)))"

text \<open>\<^verbatim>\<open>_get\<close> and \<^verbatim>\<open>_set\<close> on the datasets \<open>f\<close> of an open file.\<close>

definition DiskStore_get :: "'v fields \<Rightarrow> string \<Rightarrow> 'v option" where
  "DiskStore_get f key = (if key \<in> set (map fst f) then dict_get None f key else None)"

definition DiskStore_set :: "'v fields \<Rightarrow> string \<Rightarrow> 'v option \<Rightarrow> 'v fields" where
  "DiskStore_set f key val = AList.update key val f"

text \<open>Mode \<^verbatim>\<open>'a'\<close> opens the cluster's file and creates it when it does not exist.\<close>

definition DiskStore_store :: "int \<Rightarrow> 'v fields \<Rightarrow> 'v DiskStore \<Rightarrow> 'v DiskStore" where
  "DiskStore_store cluster data d =
     (let f = dict_get [] (files d) cluster
      in d\<lparr>files := AList.update cluster (fold (\<lambda>(key, val) f'. DiskStore_set f' key val) data f)
                       (files d)\<rparr>)"

definition DiskStore_load :: "int \<Rightarrow> keys \<Rightarrow> 'v DiskStore \<Rightarrow> error + 'v loaded" where
  "DiskStore_load cluster ks d =
     (if \<not> cluster_file_exists cluster d then
        (case ks of
           KNone \<Rightarrow> Inr (Dict [])
         | KStr key \<Rightarrow> Inr (Value None)
         | KList keys \<Rightarrow> Inr (Dict (dict_comp (\<lambda>key. None) keys))
         | KTuple keys \<Rightarrow> Inl ValueError
         | KOther \<Rightarrow> Inl ValueError)
      else
        (let f = dict_get [] (files d) cluster in
         case ks of
           KStr key \<Rightarrow> Inr (Value (DiskStore_get f key))
         | KNone \<Rightarrow> Inr (Dict (dict_comp (DiskStore_get f) (map fst f)))
         | KList keys \<Rightarrow> Inr (Dict (dict_comp (DiskStore_get f) keys))
         | KTuple keys \<Rightarrow> Inr (Dict (dict_comp (DiskStore_get f) keys))
         | KOther \<Rightarrow> Inl AssertionError))"

definition DiskStore_clusters :: "'v DiskStore \<Rightarrow> int list" where
  "DiskStore_clusters d = sort (map fst (files d))"

definition DiskStore_delete :: "int list \<Rightarrow> 'v DiskStore \<Rightarrow> 'v DiskStore" where
  "DiskStore_delete clusters d =
     fold (\<lambda>cluster d'. if cluster_file_exists cluster d'
                         then d'\<lparr>files := AList.delete cluster (files d')\<rparr> else d')
          clusters d"

definition DiskStore_clear :: "'v DiskStore \<Rightarrow> 'v DiskStore" where
  "DiskStore_clear d = DiskStore_delete (DiskStore_clusters d) d"

section \<open>Store\<close>

text \<open>
  The \<^verbatim>\<open>Store\<close> wraps a \<^verbatim>\<open>MemoryStore\<close> and, when it was given a path, a
  \<^verbatim>\<open>DiskStore\<close>; \<open>dispatch\<close> is the dictionary from a field name to \<^verbatim>\<open>'memory'\<close>
  or \<^verbatim>\<open>'disk'\<close>.
\<close>

record 'v Store =
  memory_store :: "'v MemoryStore"
  disk_store :: "'v DiskStore option"
  dispatch :: "(string \<times> string) list"

text \<open>
  \<^verbatim>\<open>Store(store_path)\<close>: the argument is \<open>None\<close> for \<^verbatim>\<open>store_path=None\<close>, and
  otherwise the files found in the directory at that path.
\<close>

definition Store_init :: "(int \<times> 'v fields) list option \<Rightarrow> 'v Store" where
  "Store_init store_path =
     \<lparr>memory_store = MemoryStore_init,
      disk_store = (case store_path of None \<Rightarrow> None | Some directory \<Rightarrow> Some (DiskStore_init directory)),
      dispatch = []\<rparr>"

definition check_location :: "string \<Rightarrow> error + unit" where
  "check_location location =
     (if location \<notin> {''memory'', ''disk''} then Inl ValueError else Inr ())"

definition register_field :: "string \<Rightarrow> string \<Rightarrow> 'v Store \<Rightarrow> error + 'v Store" where
  "register_field name location s =
     (case check_location location of
        Inl e \<Rightarrow> Inl e
      | Inr _ \<Rightarrow> Inr (s\<lparr>dispatch := AList.update name location (dispatch s)\<rparr>))"

text \<open>
  \<^verbatim>\<open>_filter\<close>: \<open>None\<close> for \<open>None\<close>, and otherwise the keys registered in the given
  location (\<open>registered_in\<close> is its list comprehension).
\<close>

definition registered_in :: "string \<Rightarrow> 'v Store \<Rightarrow> string list \<Rightarrow> string list" where
  "registered_in location s keys = [key \<leftarrow> keys. map_of (dispatch s) key = Some location]"

definition Store_filter :: "string list option \<Rightarrow> string \<Rightarrow> 'v Store \<Rightarrow> string list option" where
  "Store_filter ks location s =
     (case ks of None \<Rightarrow> None | Some keys \<Rightarrow> Some (registered_in location s keys))"

definition Store_clusters :: "'v Store \<Rightarrow> error + int list" where
  "Store_clusters s =
     (let clusters_memory = MemoryStore_clusters (memory_store s) in
      case disk_store s of
        None \<Rightarrow> Inr clusters_memory
      | Some d \<Rightarrow>
          (let clusters_disk = DiskStore_clusters d in
           if clusters_memory \<noteq> clusters_disk then Inl RuntimeError
           else Inr clusters_memory))"

text \<open>
  \<^verbatim>\<open>store(cluster, location=None, **data)\<close>. The location is \<open>None\<close> or an object
  compared with the two location names. The loop over \<^verbatim>\<open>data.keys()\<close> registers every
  field; it runs only for a valid location, so \<^verbatim>\<open>register_field\<close> cannot raise there.
\<close>

fun register_fields :: "string list \<Rightarrow> string \<Rightarrow> 'v Store \<Rightarrow> error + 'v Store" where
  "register_fields [] location s = Inr s"
| "register_fields (key # keys) location s =
     (case register_field key location s of
        Inl e \<Rightarrow> Inl e
      | Inr s' \<Rightarrow> register_fields keys location s')"

definition Store_store :: "int \<Rightarrow> string option \<Rightarrow> 'v fields \<Rightarrow> 'v Store \<Rightarrow> error + 'v Store" where
  "Store_store cluster location data s =
     (case (case location of
              None \<Rightarrow> Inr s
            | Some loc \<Rightarrow>
                if loc \<in> {''memory'', ''disk''} then register_fields (map fst data) loc s
                else (case check_location loc of Inl e \<Rightarrow> Inl e | Inr _ \<Rightarrow> Inr s)) of
        Inl e \<Rightarrow> Inl e
      | Inr s1 \<Rightarrow>
          (let data_memory = dict_select data (registered_in ''memory'' s1 (map fst data));
               s2 = s1\<lparr>memory_store := MemoryStore_store cluster data_memory (memory_store s1)\<rparr>
           in case disk_store s2 of
                None \<Rightarrow> Inr s2
              | Some d \<Rightarrow>
                  (let data_disk = dict_select data (registered_in ''disk'' s2 (map fst data))
                   in Inr (s2\<lparr>disk_store := Some (DiskStore_store cluster data_disk d)\<rparr>))))"

text \<open>
  Modelled from the spec: \<^verbatim>\<open>_concatenate_dicts\<close> of \<^verbatim>\<open>phy/utils/_misc.py\<close> is not
  among the sources. The specification describes it as the merge of the result maps in
  which a later map is applied after an earlier one, so that the later value wins on a
  shared key: the maps are written into an empty dictionary from left to right. An
  argument that is not a dictionary cannot be merged.
\<close>

fun concatenate_into :: "'v fields \<Rightarrow> 'v loaded list \<Rightarrow> error + 'v fields" where
  "concatenate_into out [] = Inr out"
| "concatenate_into out (Dict d # dicts) = concatenate_into (dict_update out d) dicts"
| "concatenate_into out (Value v # dicts) = Inl TypeError"

definition concatenate_dicts :: "'v loaded list \<Rightarrow> error + 'v loaded" where
  "concatenate_dicts dicts =
     (case concatenate_into [] dicts of Inl e \<Rightarrow> Inl e | Inr out \<Rightarrow> Inr (Dict out))"

text \<open>The value \<^verbatim>\<open>_filter\<close> returns, as the \<^verbatim>\<open>keys\<close> argument of a tier's \<^verbatim>\<open>load\<close>.\<close>

definition as_keys :: "string list option \<Rightarrow> keys" where
  "as_keys ks = (case ks of None \<Rightarrow> KNone | Some keys \<Rightarrow> KList keys)"

text \<open>
  \<^verbatim>\<open>load(cluster, keys=None)\<close>. For a string, \<^verbatim>\<open>self._dispatch[keys]\<close> raises
  \<^verbatim>\<open>KeyError\<close> for an unregistered field, \<^verbatim>\<open>self._disk_store.load\<close> raises
  \<^verbatim>\<open>AttributeError\<close> when the disk store is \<^verbatim>\<open>None\<close>, and a location that is
  neither name falls through both branches, which returns \<^verbatim>\<open>None\<close>.
\<close>

definition Store_load_dicts :: "int \<Rightarrow> string list option \<Rightarrow> 'v Store \<Rightarrow> error + 'v loaded" where
  "Store_load_dicts cluster ks s =
     (case MemoryStore_load cluster (as_keys (Store_filter ks ''memory'' s)) (memory_store s) of
        Inl e \<Rightarrow> Inl e
      | Inr data_memory \<Rightarrow>
          (case (case disk_store s of
                   Some d \<Rightarrow> DiskStore_load cluster (as_keys (Store_filter ks ''disk'' s)) d
                 | None \<Rightarrow> Inr (Dict [])) of
             Inl e \<Rightarrow> Inl e
           | Inr data_disk \<Rightarrow> concatenate_dicts [data_memory, data_disk]))"

definition Store_load :: "int \<Rightarrow> keys \<Rightarrow> 'v Store \<Rightarrow> error + 'v loaded" where
  "Store_load cluster ks s =
     (case ks of
        KStr key \<Rightarrow>
          (case map_of (dispatch s) key of
             None \<Rightarrow> Inl KeyError
           | Some location \<Rightarrow>
               if location = ''memory'' then MemoryStore_load cluster (KStr key) (memory_store s)
               else if location = ''disk'' then
                 (case disk_store s of
                    None \<Rightarrow> Inl AttributeError
                  | Some d \<Rightarrow> DiskStore_load cluster (KStr key) d)
               else Inr (Value None))
      | KNone \<Rightarrow> Store_load_dicts cluster None s
      | KList keys \<Rightarrow> Store_load_dicts cluster (Some keys) s
      | KTuple keys \<Rightarrow> Inl ValueError
      | KOther \<Rightarrow> Inl ValueError)"

definition Store_clear :: "'v Store \<Rightarrow> 'v Store" where
  "Store_clear s =
     (let s1 = s\<lparr>memory_store := MemoryStore_clear (memory_store s)\<rparr>
      in case disk_store s1 of
           None \<Rightarrow> s1
         | Some d \<Rightarrow> s1\<lparr>disk_store := Some (DiskStore_clear d)\<rparr>)"

definition Store_delete :: "int list \<Rightarrow> 'v Store \<Rightarrow> 'v Store" where
  "Store_delete clusters s =
     (let s1 = s\<lparr>memory_store := MemoryStore_delete clusters (memory_store s)\<rparr>
      in case disk_store s1 of
           None \<Rightarrow> s1
         | Some d \<Rightarrow> s1\<lparr>disk_store := Some (DiskStore_delete clusters d)\<rparr>)"

text \<open>
  A field is routed to a tier the store has when its entry in \<open>dispatch\<close> is
  \<^verbatim>\<open>'memory'\<close>, or is \<^verbatim>\<open>'disk'\<close> while the store has a disk store.
\<close>

definition routed :: "'v Store \<Rightarrow> string \<Rightarrow> bool" where
  "routed s key \<longleftrightarrow>
     map_of (dispatch s) key = Some ''memory''
     \<or> (map_of (dispatch s) key = Some ''disk'' \<and> disk_store s \<noteq> None)"

section \<open>StoreItem\<close>

text \<open>
  A method that changes the store and may raise part-way returns the exception, if any,
  together with the state it leaves behind: \<open>(None, s)\<close> is a normal return.

  A \<^verbatim>\<open>StoreItem\<close> subclass declares its \<^verbatim>\<open>fields\<close> and overrides
  \<^verbatim>\<open>store_from_model\<close>, which writes into the \<^verbatim>\<open>Store\<close> the item was created with;
  what it reads from the model is part of the function. \<^verbatim>\<open>assign\<close> and \<^verbatim>\<open>merge\<close>
  may be overridden too: \<open>None\<close> stands for the method inherited from \<^verbatim>\<open>StoreItem\<close>.
\<close>

record update_info =
  description :: string
  deleted :: "int list"
  added :: "int list"
  new_spikes_per_cluster :: "(int \<times> int list) list"

record 'v StoreItem =
  item_fields :: "(string \<times> string) list option"
  item_name :: string
  store_from_model :: "int \<Rightarrow> int list \<Rightarrow> 'v Store \<Rightarrow> error option \<times> 'v Store"
  assign_override :: "(update_info \<Rightarrow> 'v Store \<Rightarrow> error option \<times> 'v Store) option"
  merge_override :: "(update_info \<Rightarrow> 'v Store \<Rightarrow> error option \<times> 'v Store) option"


fun StoreItem_assign_loop ::
  "'v StoreItem \<Rightarrow> (int \<times> int list) list \<Rightarrow> int list \<Rightarrow> 'v Store \<Rightarrow> error option \<times> 'v Store"
where
  "StoreItem_assign_loop item nspc [] s = (None, s)"
| "StoreItem_assign_loop item nspc (cluster # clusters) s =
     (case map_of nspc cluster of
        None \<Rightarrow> (Some KeyError, s)
      | Some spikes \<Rightarrow>
          (case store_from_model item cluster spikes s of
             (Some e, s') \<Rightarrow> (Some e, s')
           | (None, s') \<Rightarrow> StoreItem_assign_loop item nspc clusters s'))"

definition StoreItem_assign :: "'v StoreItem \<Rightarrow> update_info \<Rightarrow> 'v Store \<Rightarrow> error option \<times> 'v Store" where
  "StoreItem_assign item up s =
     (case assign_override item of
        Some f \<Rightarrow> f up s
      | None \<Rightarrow> StoreItem_assign_loop item (new_spikes_per_cluster up) (added up) s)"

definition StoreItem_merge :: "'v StoreItem \<Rightarrow> update_info \<Rightarrow> 'v Store \<Rightarrow> error option \<times> 'v Store" where
  "StoreItem_merge item up s =
     (case merge_override item of
        Some f \<Rightarrow> f up s
      | None \<Rightarrow> StoreItem_assign item up s)"

section \<open>ClusterStore\<close>

text \<open>
  Besides its membership map, its \<^verbatim>\<open>Store\<close> and its items, a \<^verbatim>\<open>ClusterStore\<close> has the
  load functions that \<^verbatim>\<open>register_item\<close> attaches to it with \<^verbatim>\<open>setattr\<close>, one per
  registered field: \<open>cs_accessors\<close> lists their names.
\<close>

record 'v ClusterStore =
  cs_spikes_per_cluster :: "(int \<times> int list) list"
  cs_store :: "'v Store"
  cs_items :: "'v StoreItem list"
  cs_accessors :: "string list"




text \<open>The accessor \<^verbatim>\<open>self.<name>(cluster)\<close> that \<^verbatim>\<open>register_item\<close> creates.\<close>

definition accessor :: "string \<Rightarrow> int \<Rightarrow> 'v ClusterStore \<Rightarrow> error + 'v loaded" where
  "accessor name cluster cs =
     (if name \<in> set (cs_accessors cs) then Store_load cluster (KStr name) (cs_store cs)
      else Inl AttributeError)"



subsection \<open>The array operations \<^verbatim>\<open>load\<close> uses\<close>

text \<open>
  An array is the list of its rows along the first axis. \<^verbatim>\<open>np.concatenate\<close> raises
  \<^verbatim>\<open>ValueError\<close> for an empty sequence and for an item that is not an array, such as
  \<^verbatim>\<open>None\<close>. The shapes of the rows are not modelled.
\<close>

fun as_arrays :: "'a list loaded list \<Rightarrow> error + 'a list list" where
  "as_arrays [] = Inr []"
| "as_arrays (Value (Some a) # rest) =
     (case as_arrays rest of Inl e \<Rightarrow> Inl e | Inr arrays \<Rightarrow> Inr (a # arrays))"
| "as_arrays (Value None # rest) = Inl ValueError"
| "as_arrays (Dict d # rest) = Inl ValueError"

definition np_concatenate :: "'a list list \<Rightarrow> error + 'a list" where
  "np_concatenate arrays = (if arrays = [] then Inl ValueError else Inr (concat arrays))"

text \<open>\<^verbatim>\<open>np.all(np.in1d(xs, ys))\<close>\<close>

definition all_in1d :: "'a list \<Rightarrow> 'a list \<Rightarrow> bool" where
  "all_in1d xs ys = list_all (\<lambda>x. x \<in> set ys) xs"

text \<open>
  Modelled from the spec: \<^verbatim>\<open>_index_of\<close> of \<^verbatim>\<open>phy/utils/array.py\<close> is not among the
  sources. The specification has \<^verbatim>\<open>load\<close> return the concatenated values whose position
  matches the requested member indices: each requested index is replaced by its position
  in the lookup sequence. The position taken here is the first one; the specification
  does not say which one an index that occurs twice gets.
\<close>

fun position_in :: "'a list \<Rightarrow> 'a \<Rightarrow> nat" where
  "position_in [] x = 0"
| "position_in (y # ys) x = (if x = y then 0 else Suc (position_in ys x))"

definition index_of :: "'a list \<Rightarrow> 'a list \<Rightarrow> nat list" where
  "index_of arr lookup = map (position_in lookup) arr"

text \<open>\<^verbatim>\<open>arrays[idx, ...]\<close> for non-negative indices.\<close>

definition take_rows :: "'a list \<Rightarrow> nat list \<Rightarrow> error + 'a list" where
  "take_rows arrays idx =
     (if list_all (\<lambda>i. i < length arrays) idx then Inr (map (\<lambda>i. arrays ! i) idx)
      else Inl IndexError)"

subsection \<open>\<^verbatim>\<open>load\<close>\<close>

text \<open>The two list comprehensions of \<^verbatim>\<open>load\<close>; the first exception ends them.\<close>

fun load_each :: "string \<Rightarrow> int list \<Rightarrow> 'v Store \<Rightarrow> error + 'v loaded list" where
  "load_each name [] s = Inr []"
| "load_each name (cluster # clusters) s =
     (case Store_load cluster (KStr name) s of
        Inl e \<Rightarrow> Inl e
      | Inr v \<Rightarrow>
          (case load_each name clusters s of Inl e \<Rightarrow> Inl e | Inr vs \<Rightarrow> Inr (v # vs)))"

fun spikes_each :: "(int \<times> int list) list \<Rightarrow> int list \<Rightarrow> error + int list list" where
  "spikes_each spc [] = Inr []"
| "spikes_each spc (cluster # clusters) =
     (case map_of spc cluster of
        None \<Rightarrow> Inl KeyError
      | Some spikes \<Rightarrow>
          (case spikes_each spc clusters of Inl e \<Rightarrow> Inl e | Inr rest \<Rightarrow> Inr (spikes # rest)))"

text \<open>The local variables \<^verbatim>\<open>arrays\<close> and \<^verbatim>\<open>spike_clusters\<close> of \<^verbatim>\<open>load\<close>.\<close>

definition load_arrays :: "string \<Rightarrow> int list \<Rightarrow> 'a list ClusterStore \<Rightarrow> error + 'a list" where
  "load_arrays name clusters cs =
     (case load_each name clusters (cs_store cs) of
        Inl e \<Rightarrow> Inl e
      | Inr vs \<Rightarrow>
          (case as_arrays vs of Inl e \<Rightarrow> Inl e | Inr arrays \<Rightarrow> np_concatenate arrays))"

definition load_spike_clusters :: "int list \<Rightarrow> 'v ClusterStore \<Rightarrow> error + int list" where
  "load_spike_clusters clusters cs =
     (case spikes_each (cs_spikes_per_cluster cs) clusters of
        Inl e \<Rightarrow> Inl e
      | Inr per_cluster \<Rightarrow> np_concatenate per_cluster)"

definition ClusterStore_load ::
  "string \<Rightarrow> int list \<Rightarrow> int list \<Rightarrow> 'a list ClusterStore \<Rightarrow> error + 'a list"
where
  "ClusterStore_load name clusters spikes cs =
     (case Store_clusters (cs_store cs) of
        Inl e \<Rightarrow> Inl e
      | Inr store_clusters \<Rightarrow>
          if \<not> all_in1d clusters store_clusters then Inl AssertionError
          else
            (case load_arrays name clusters cs of
               Inl e \<Rightarrow> Inl e
             | Inr arrays \<Rightarrow>
                 (case load_spike_clusters clusters cs of
                    Inl e \<Rightarrow> Inl e
                  | Inr spike_clusters \<Rightarrow>
                      if \<not> all_in1d spikes spike_clusters then Inl AssertionError
                      else take_rows arrays (index_of spikes spike_clusters))))"

subsection \<open>\<^verbatim>\<open>update\<close>, \<^verbatim>\<open>merge\<close>, \<^verbatim>\<open>assign\<close> and \<^verbatim>\<open>generate\<close>\<close>

text \<open>\<^verbatim>\<open>for item in self._items: item.method(up)\<close>; an exception ends the loop.\<close>

fun for_items ::
  "('v StoreItem \<Rightarrow> 'v Store \<Rightarrow> error option \<times> 'v Store) \<Rightarrow> 'v StoreItem list \<Rightarrow> 'v Store
     \<Rightarrow> error option \<times> 'v Store"
where
  "for_items method [] s = (None, s)"
| "for_items method (item # items) s =
     (case method item s of
        (Some e, s') \<Rightarrow> (Some e, s')
      | (None, s') \<Rightarrow> for_items method items s')"

definition ClusterStore_merge :: "update_info \<Rightarrow> 'v ClusterStore \<Rightarrow> error option \<times> 'v ClusterStore" where
  "ClusterStore_merge up cs =
     (case for_items (\<lambda>item. StoreItem_merge item up) (cs_items cs) (cs_store cs) of
        (r, s') \<Rightarrow> (r, cs\<lparr>cs_store := s'\<rparr>))"

definition ClusterStore_assign :: "update_info \<Rightarrow> 'v ClusterStore \<Rightarrow> error option \<times> 'v ClusterStore" where
  "ClusterStore_assign up cs =
     (case for_items (\<lambda>item. StoreItem_assign item up) (cs_items cs) (cs_store cs) of
        (r, s') \<Rightarrow> (r, cs\<lparr>cs_store := s'\<rparr>))"

definition ClusterStore_update :: "update_info \<Rightarrow> 'v ClusterStore \<Rightarrow> error option \<times> 'v ClusterStore" where
  "ClusterStore_update up cs =
     (let cs1 = cs\<lparr>cs_store := Store_delete (deleted up) (cs_store cs)\<rparr>
      in if description up = ''merge'' then ClusterStore_merge up cs1
         else if description up = ''assign'' then ClusterStore_assign up cs1
         else (Some NotImplementedError, cs1))"



section \<open>Example stores\<close>



definition ex_disk12 :: "nat DiskStore" where
  "ex_disk12 = \<lparr>files = [(1, []), (2, [])]\<rparr>"

definition ex_two_tier :: "nat Store" where
  "ex_two_tier =
     \<lparr>memory_store = \<lparr>ds = [(5, [(''mean'', Some 1), (''both'', Some 2)])]\<rparr>,
      disk_store = Some \<lparr>files = [(5, [(''both'', Some 3), (''waveform'', Some 4)])]\<rparr>,
      dispatch = [(''mean'', ''memory''), (''waveform'', ''disk'')]\<rparr>"

definition ex_disk_field_nodisk :: "nat Store" where
  "ex_disk_field_nodisk =
     \<lparr>memory_store = \<lparr>ds = [(5, [(''mean'', Some 1)])]\<rparr>,
      disk_store = None,
      dispatch = [(''mean'', ''memory''), (''waveform'', ''disk'')]\<rparr>"

definition ex_data :: "nat fields" where
  "ex_data = [(''mean'', Some 10), (''x'', Some 11), (''waveform'', Some 12)]"

definition ex_round_trip_data :: "nat fields" where
  "ex_round_trip_data = [(''mean'', Some 10), (''waveform'', Some 12)]"

definition ex_two_tier_stored :: "nat Store" where
  "ex_two_tier_stored =
     \<lparr>memory_store = \<lparr>ds = [(5, [(''mean'', Some 10), (''both'', Some 2)])]\<rparr>,
      disk_store = Some \<lparr>files = [(5, [(''both'', Some 3), (''waveform'', Some 12)])]\<rparr>,
      dispatch = [(''mean'', ''memory''), (''waveform'', ''disk'')]\<rparr>"

definition ex_disk_field_dropped :: "nat Store" where
  "ex_disk_field_dropped =
     \<lparr>memory_store = \<lparr>ds = [(5, [])]\<rparr>, disk_store = None,
      dispatch = [(''waveform'', ''disk'')]\<rparr>"

text \<open>
  An item that stores, for each cluster, the squares of its spike indices in the field
  \<^verbatim>\<open>spikes_square\<close>; the cluster store that \<^verbatim>\<open>generate\<close> builds with it for the
  clusters 1 and 2; and a clustering change with a chosen description.
\<close>

definition ex_spikes_item :: "int list StoreItem" where
  "ex_spikes_item =
     \<lparr>item_fields = Some [(''spikes_square'', ''memory'')],
      item_name = ''spikes_square'',
      store_from_model =
        (\<lambda>cluster spikes s.
           case Store_store cluster None [(''spikes_square'', Some (map (\<lambda>i. i * i) spikes))] s of
             Inl e \<Rightarrow> (Some e, s)
           | Inr s' \<Rightarrow> (None, s')),
      assign_override = None, merge_override = None\<rparr>"

definition ex_cluster_store :: "int list ClusterStore" where
  "ex_cluster_store =
     \<lparr>cs_spikes_per_cluster = [(1, [10, 11]), (2, [12])],
      cs_store =
        \<lparr>memory_store =
           \<lparr>ds = [(1, [(''spikes_square'', Some [100, 121])]),
                   (2, [(''spikes_square'', Some [144])])]\<rparr>,
         disk_store = None,
         dispatch = [(''spikes_square'', ''memory'')]\<rparr>,
      cs_items = [ex_spikes_item],
      cs_accessors = [''spikes_square'']\<rparr>"

definition ex_up :: "string \<Rightarrow> update_info" where
  "ex_up descr =
     \<lparr>description = descr, deleted = [1], added = [3], new_spikes_per_cluster = [(3, [10, 11])]\<rparr>"







section \<open>Dictionaries as association lists\<close>

lemma map_of_dict_update:
  "map_of (dict_update d e) k = (case map_of (rev e) k of None \<Rightarrow> map_of d k | Some v \<Rightarrow> Some v)"
  unfolding dict_update_def
  by (induction e arbitrary: d) (auto simp: update_conv' map_add_def split: option.splits)

lemma distinct_dict_update:
  "distinct (map fst d) \<Longrightarrow> distinct (map fst (dict_update d e))"
  unfolding dict_update_def
  by (induction e arbitrary: d) (auto simp: distinct_update)

lemma map_of_rev_distinct:
  "distinct (map fst d) \<Longrightarrow> map_of (rev d) = map_of d"
proof (induction d)
  case Nil
  show ?case by simp
next
  case (Cons p d)
  obtain k v where p: "p = (k, v)" by (cases p)
  from Cons.prems p have notin: "k \<notin> fst ` set d" and dist: "distinct (map fst d)" by auto
  from notin have "map_of d k = None" by (simp add: map_of_eq_None_iff)
  with Cons.IH [OF dist] p show ?case
    by (auto simp: map_of_append map_add_def fun_eq_iff split: option.splits)
qed

lemma map_of_dict_update_distinct:
  "distinct (map fst e) \<Longrightarrow>
   map_of (dict_update d e) k = (case map_of e k of None \<Rightarrow> map_of d k | Some v \<Rightarrow> Some v)"
  by (simp add: map_of_dict_update map_of_rev_distinct)

lemma map_of_fold_comp:
  "map_of (fold (\<lambda>k acc. AList.update k (f k) acc) ks acc0) k =
     (if k \<in> set ks then Some (f k) else map_of acc0 k)"
  by (induction ks arbitrary: acc0) (auto simp: update_conv')

lemma map_of_dict_comp:
  "map_of (dict_comp f ks) k = (if k \<in> set ks then Some (f k) else None)"
  unfolding dict_comp_def by (simp add: map_of_fold_comp)

lemma distinct_fold_comp:
  "distinct (map fst acc0) \<Longrightarrow> distinct (map fst (fold (\<lambda>k acc. AList.update k (f k) acc) ks acc0))"
  by (induction ks arbitrary: acc0) (simp_all add: distinct_update)

lemma distinct_dict_comp: "distinct (map fst (dict_comp f ks))"
  unfolding dict_comp_def by (simp add: distinct_fold_comp)

lemma map_of_fold_select:
  "map_of (fold (\<lambda>k acc. case map_of data k of None \<Rightarrow> acc | Some v \<Rightarrow> AList.update k v acc)
             ks acc0) k =
     (if k \<in> set ks \<and> map_of data k \<noteq> None then map_of data k else map_of acc0 k)"
  by (induction ks arbitrary: acc0) (auto simp: update_conv' split: option.splits)

lemma map_of_dict_select:
  "map_of (dict_select data ks) k = (if k \<in> set ks then map_of data k else None)"
  unfolding dict_select_def by (auto simp add: map_of_fold_select)

lemma distinct_fold_select:
  "distinct (map fst acc0) \<Longrightarrow>
   distinct (map fst (fold (\<lambda>k acc. case map_of data k of None \<Rightarrow> acc | Some v \<Rightarrow> AList.update k v acc) ks acc0))"
  by (induction ks arbitrary: acc0) (simp_all add: distinct_update split: option.splits)

lemma distinct_dict_select: "distinct (map fst (dict_select data ks))"
  unfolding dict_select_def by (simp add: distinct_fold_select)

lemma dict_update_Nil [simp]: "dict_update d [] = d"
  by (simp add: dict_update_def)

lemma dict_comp_Nil [simp]: "dict_comp f [] = []"
  by (simp add: dict_comp_def)

lemma dict_get_absent: "k \<notin> set (map fst d) \<Longrightarrow> dict_get dflt d k = dflt"
proof -
  assume "k \<notin> set (map fst d)"
  then have "map_of d k = None" by (simp add: map_of_eq_None_iff)
  then show ?thesis by (simp add: dict_get_def)
qed

lemma dict_get_Nil [simp]: "dict_get dflt [] k = dflt"
  by (simp add: dict_get_def)

lemma dict_get_Nil_fun: "dict_get dflt [] = (\<lambda>k. dflt)"
  by (rule ext) simp

lemma map_of_dict_comp_keys: "map_of (dict_comp (dict_get None f) (map fst f)) k = map_of f k"
proof (cases "map_of f k")
  case None
  then have "k \<notin> set (map fst f)" by (simp add: map_of_eq_None_iff)
  with None show ?thesis by (simp add: map_of_dict_comp)
next
  case (Some v)
  then have "k \<in> set (map fst f)" by (metis map_of_eq_None_iff option.distinct(1) set_map)
  with Some show ?thesis by (simp add: map_of_dict_comp dict_get_def)
qed


section \<open>The clusters of a Store\<close>



lemma DiskStore_get_eq: "DiskStore_get f key = dict_get None f key"
  by (simp add: DiskStore_get_def dict_get_absent)

lemma map_of_merge_two:
  assumes "distinct (map fst dm)" "distinct (map fst dd)"
  shows "\<exists>out. concatenate_dicts [Dict dm, Dict dd] = Inr (Dict out)
           \<and> (\<forall>k. map_of out k = (case map_of dd k of None \<Rightarrow> map_of dm k | Some v \<Rightarrow> Some v))"
  using assms
  by (simp add: concatenate_dicts_def map_of_dict_update map_of_rev_distinct split: option.splits)

lemma MemoryStore_load_as_keys:
  "MemoryStore_load cluster (as_keys ks) m =
     Inr (Dict (case ks of
                  None \<Rightarrow> dict_get [] (ds m) cluster
                | Some keys \<Rightarrow> dict_comp (\<lambda>key. dict_get None (dict_get [] (ds m) cluster) key) keys))"
  by (simp add: MemoryStore_load_def as_keys_def split: option.splits)

lemma DiskStore_load_as_keys:
  "DiskStore_load cluster (as_keys ks) d =
     Inr (Dict (dict_comp (\<lambda>key. dict_get None (dict_get [] (files d) cluster) key)
                  (case ks of None \<Rightarrow> map fst (dict_get [] (files d) cluster) | Some keys \<Rightarrow> keys)))"
proof -
  have get: "DiskStore_get f = (\<lambda>key. dict_get None f key)" for f :: "'a fields"
    by (rule ext) (rule DiskStore_get_eq)
  show ?thesis
    by (simp add: DiskStore_load_def as_keys_def cluster_file_exists_def get dict_get_absent Let_def
        split: option.splits)
qed


section \<open>Loading from both tiers\<close>



section \<open>A disk field in a store without a disk store\<close>

text \<open>
  Claim C10. In a \<^verbatim>\<open>Store\<close> built without a path (its disk store is \<^verbatim>\<open>None\<close>), loading
  one field by name whose location is \<^verbatim>\<open>'disk'\<close> does not give \<^verbatim>\<open>None\<close> or an empty
  result: it calls \<^verbatim>\<open>load\<close> on the missing disk store, which raises
  \<^verbatim>\<open>AttributeError\<close>. On the same store, \<^verbatim>\<open>keys=None\<close> and a list of keys return what
  the memory store holds for them.
\<close>

theorem Store_load_disk_field_without_disk_store:
  assumes "disk_store s = None"
    and "map_of (dispatch s) key = Some ''disk''"
    and "distinct (map fst (dict_get [] (ds (memory_store s)) cluster))"
  shows "Store_load cluster (KStr key) s = Inl AttributeError
       \<and> (\<exists>data_memory out.
              MemoryStore_load cluster KNone (memory_store s) = Inr (Dict data_memory)
            \<and> Store_load cluster KNone s = Inr (Dict out)
            \<and> map_of out = map_of data_memory)
       \<and> (\<exists>data_memory out.
              MemoryStore_load cluster (KList (registered_in ''memory'' s keys)) (memory_store s)
                = Inr (Dict data_memory)
            \<and> Store_load cluster (KList keys) s = Inr (Dict out)
            \<and> map_of out = map_of data_memory)"
  using assms
  by (auto simp: Store_load_def Store_load_dicts_def Store_filter_def as_keys_def
      MemoryStore_load_def concatenate_dicts_def map_of_dict_update map_of_rev_distinct
      distinct_dict_comp fun_eq_iff split: option.splits)

theorem Store_load_disk_field_without_disk_store_witness:
  "disk_store ex_disk_field_nodisk = None
   \<and> map_of (dispatch ex_disk_field_nodisk) ''waveform'' = Some ''disk''
   \<and> distinct (map fst (dict_get [] (ds (memory_store ex_disk_field_nodisk)) 5))
   \<and> Store_load 5 (KStr ''waveform'') ex_disk_field_nodisk = Inl AttributeError
   \<and> Store_load 5 KNone ex_disk_field_nodisk = Inr (Dict [(''mean'', Some 1)])
   \<and> Store_load 5 (KList [''mean'', ''waveform'']) ex_disk_field_nodisk
       = Inr (Dict [(''mean'', Some 1)])"
  using Store_load_disk_field_without_disk_store [of ex_disk_field_nodisk "''waveform''" 5 "[''mean'', ''waveform'']"]
  by (simp add: ex_disk_field_nodisk_def dict_get_def Store_load_def Store_load_dicts_def
      as_keys_def Store_filter_def registered_in_def MemoryStore_load_def concatenate_dicts_def
      dict_update_def dict_comp_def)

section \<open>Loading a cluster that is in neither tier\<close>

lemma MemoryStore_clusters_set [simp]: "set (MemoryStore_clusters m) = set (map fst (ds m))"
  by (simp add: MemoryStore_clusters_def)

lemma DiskStore_clusters_set [simp]: "set (DiskStore_clusters d) = set (map fst (files d))"
  by (simp add: DiskStore_clusters_def)

lemma MemoryStore_load_absent:
  assumes "cluster \<notin> set (MemoryStore_clusters m)"
  shows "MemoryStore_load cluster KNone m = Inr (Dict [])"
    and "MemoryStore_load cluster (KStr key) m = Inr (Value None)"
    and "MemoryStore_load cluster (KList keys) m = Inr (Dict (dict_comp (\<lambda>key. None) keys))"
  using assms by (simp_all add: MemoryStore_load_def dict_get_absent dict_get_Nil_fun)

lemma DiskStore_load_absent:
  assumes "cluster \<notin> set (DiskStore_clusters d)"
  shows "DiskStore_load cluster KNone d = Inr (Dict [])"
    and "DiskStore_load cluster (KStr key) d = Inr (Value None)"
    and "DiskStore_load cluster (KList keys) d = Inr (Dict (dict_comp (\<lambda>key. None) keys))"
  using assms by (simp_all add: DiskStore_load_def cluster_file_exists_def)

lemma Store_load_absent_KNone:
  assumes "cluster \<notin> set (MemoryStore_clusters (memory_store s))"
    and "\<And>d. disk_store s = Some d \<Longrightarrow> cluster \<notin> set (DiskStore_clusters d)"
  shows "Store_load cluster KNone s = Inr (Dict [])"
  using assms
  by (cases "disk_store s")
     (simp_all add: Store_load_def Store_load_dicts_def Store_filter_def as_keys_def
       MemoryStore_load_absent DiskStore_load_absent concatenate_dicts_def)

lemma Store_load_absent_KStr:
  assumes "cluster \<notin> set (MemoryStore_clusters (memory_store s))"
    and "\<And>d. disk_store s = Some d \<Longrightarrow> cluster \<notin> set (DiskStore_clusters d)"
  shows "routed s key \<Longrightarrow> Store_load cluster (KStr key) s = Inr (Value None)"
    and "map_of (dispatch s) key = None \<Longrightarrow> Store_load cluster (KStr key) s = Inl KeyError"
  using assms
  by (auto simp: Store_load_def routed_def MemoryStore_load_absent DiskStore_load_absent)

lemma Store_load_absent_KList:
  assumes "cluster \<notin> set (MemoryStore_clusters (memory_store s))"
    and "\<And>d. disk_store s = Some d \<Longrightarrow> cluster \<notin> set (DiskStore_clusters d)"
  shows "\<exists>out. Store_load cluster (KList keys) s = Inr (Dict out)
           \<and> (\<forall>key. map_of out key = (if key \<in> set keys \<and> routed s key then Some None else None))"
proof (cases "disk_store s")
  case None
  with assms(1) show ?thesis
    by (auto simp: Store_load_def Store_load_dicts_def Store_filter_def as_keys_def
        MemoryStore_load_absent concatenate_dicts_def map_of_dict_update map_of_rev_distinct
        distinct_dict_comp map_of_dict_comp registered_in_def routed_def split: option.splits)
next
  case (Some d)
  with assms(1) assms(2) [OF Some] show ?thesis
    by (auto simp: Store_load_def Store_load_dicts_def Store_filter_def as_keys_def
        MemoryStore_load_absent DiskStore_load_absent concatenate_dicts_def map_of_dict_update
        map_of_rev_distinct distinct_dict_comp map_of_dict_comp registered_in_def routed_def
        split: option.splits)
qed

text \<open>
  Claim C7, as amended. For a cluster that a tier does not hold, that tier's \<^verbatim>\<open>load\<close>
  returns \<^verbatim>\<open>{}\<close> for \<^verbatim>\<open>keys=None\<close>, \<^verbatim>\<open>None\<close> for a string and a dictionary sending
  every requested key to \<^verbatim>\<open>None\<close> for a list, and does not raise. For a cluster that is
  in neither tier, \<^verbatim>\<open>Store.load\<close> returns \<^verbatim>\<open>{}\<close> for \<^verbatim>\<open>keys=None\<close>; for a string it
  returns \<^verbatim>\<open>None\<close> when the field is routed to a tier the store has and raises
  \<^verbatim>\<open>KeyError\<close> when the field is not registered; for a list it returns a dictionary that
  sends to \<^verbatim>\<open>None\<close> exactly the requested keys routed to a tier the store has.
\<close>

theorem load_absent_cluster:
  "(cluster \<notin> set (MemoryStore_clusters m) \<longrightarrow>
       MemoryStore_load cluster KNone m = Inr (Dict [])
     \<and> MemoryStore_load cluster (KStr key) m = Inr (Value None)
     \<and> MemoryStore_load cluster (KList keys) m = Inr (Dict (dict_comp (\<lambda>key. None) keys)))
   \<and> (cluster \<notin> set (DiskStore_clusters d) \<longrightarrow>
       DiskStore_load cluster KNone d = Inr (Dict [])
     \<and> DiskStore_load cluster (KStr key) d = Inr (Value None)
     \<and> DiskStore_load cluster (KList keys) d = Inr (Dict (dict_comp (\<lambda>key. None) keys)))
   \<and> (cluster \<notin> set (MemoryStore_clusters (memory_store s)) \<longrightarrow>
      (\<forall>d'. disk_store s = Some d' \<longrightarrow> cluster \<notin> set (DiskStore_clusters d')) \<longrightarrow>
       Store_load cluster KNone s = Inr (Dict [])
     \<and> (routed s key \<longrightarrow> Store_load cluster (KStr key) s = Inr (Value None))
     \<and> (map_of (dispatch s) key = None \<longrightarrow> Store_load cluster (KStr key) s = Inl KeyError)
     \<and> (\<exists>out. Store_load cluster (KList keys) s = Inr (Dict out)
           \<and> (\<forall>k. map_of out k = (if k \<in> set keys \<and> routed s k then Some None else None))))"
  using MemoryStore_load_absent [of cluster m] DiskStore_load_absent [of cluster d]
    Store_load_absent_KNone [of cluster s] Store_load_absent_KStr [of cluster s key]
    Store_load_absent_KList [of cluster s keys]
  by blast

theorem load_absent_cluster_witness:
  "7 \<notin> set (MemoryStore_clusters (memory_store ex_two_tier))
   \<and> MemoryStore_load 7 (KList [''mean'', ''x'']) (memory_store ex_two_tier)
       = Inr (Dict [(''mean'', None), (''x'', None)])
   \<and> 7 \<notin> set (DiskStore_clusters ex_disk12)
   \<and> DiskStore_load 7 (KStr ''mean'') ex_disk12 = Inr (Value None)
   \<and> routed ex_two_tier ''mean''
   \<and> Store_load 7 KNone ex_two_tier = Inr (Dict [])
   \<and> Store_load 7 (KStr ''mean'') ex_two_tier = Inr (Value None)
   \<and> map_of (dispatch ex_two_tier) ''x'' = None
   \<and> Store_load 7 (KStr ''x'') ex_two_tier = Inl KeyError
   \<and> Store_load 7 (KList [''mean'', ''x'', ''waveform'']) ex_two_tier
       = Inr (Dict [(''mean'', None), (''waveform'', None)])"
  using load_absent_cluster [of 7 "memory_store ex_two_tier" "''mean''" "[''mean'', ''x'']"
      ex_disk12 ex_two_tier]
    load_absent_cluster [of 7 "memory_store ex_two_tier" "''x''" "[''mean'', ''x'', ''waveform'']"
      ex_disk12 ex_two_tier]
  by (simp add: ex_two_tier_def ex_disk12_def routed_def dict_comp_def Store_load_def
      Store_load_dicts_def Store_filter_def registered_in_def as_keys_def MemoryStore_load_def
      DiskStore_load_def cluster_file_exists_def concatenate_dicts_def dict_update_def
      dict_get_def)

text \<open>
  Claim C7 as stated fails for the combined load: in a store with both tiers and no
  cluster at all, loading the unregistered field \<^verbatim>\<open>'x'\<close> of cluster 7 by name raises
  \<^verbatim>\<open>KeyError\<close>, and loading the list \<^verbatim>\<open>['x']\<close> returns \<^verbatim>\<open>{}\<close>, not
  \<^verbatim>\<open>{'x': None}\<close>.
\<close>

theorem load_absent_cluster_counterexample:
  "Store_load 7 (KStr ''x'') (Store_init (Some []) :: nat Store) = Inl KeyError
   \<and> Store_load 7 (KList [''x'']) (Store_init (Some []) :: nat Store) = Inr (Dict [])"
  by (simp add: Store_load_def Store_init_def Store_load_dicts_def Store_filter_def
      registered_in_def as_keys_def MemoryStore_load_def MemoryStore_init_def DiskStore_init_def
      DiskStore_load_def cluster_file_exists_def concatenate_dicts_def)

section \<open>Storing through the Store\<close>

lemma MemoryStore_store_record:
  "dict_get [] (ds (MemoryStore_store c data m)) c' =
     (if c' = c then dict_update (dict_get [] (ds m) c) data else dict_get [] (ds m) c')"
proof (cases "c \<in> set (map fst (ds m))")
  case True
  then obtain r where "map_of (ds m) c = Some r"
    by (metis map_of_eq_None_iff not_Some_eq set_map)
  with True show ?thesis
    by (simp add: MemoryStore_store_def dict_get_def map_of_map_entry)
next
  case False
  then have "map_of (ds m) c = None" by (simp add: map_of_eq_None_iff)
  with False show ?thesis
    by (simp add: MemoryStore_store_def dict_get_def map_of_map_entry update_conv')
qed

lemma fold_DiskStore_set: "fold (\<lambda>(key, val) f'. DiskStore_set f' key val) data f = dict_update f data"
  by (simp add: dict_update_def DiskStore_set_def)

lemma DiskStore_store_record:
  "dict_get [] (files (DiskStore_store c data d)) c' =
     (if c' = c then dict_update (dict_get [] (files d) c) data else dict_get [] (files d) c')"
  by (simp add: DiskStore_store_def fold_DiskStore_set dict_get_def update_conv' Let_def)

lemma register_fields_tiers:
  "register_fields keys location s = Inr s' \<Longrightarrow>
     memory_store s' = memory_store s \<and> disk_store s' = disk_store s"
  by (induction keys arbitrary: s)
     (auto simp: register_field_def split: sum.splits)

lemma Store_store_result:
  assumes "Store_store cluster location data s = Inr s'"
  shows "memory_store s' =
           MemoryStore_store cluster (dict_select data (registered_in ''memory'' s' (map fst data)))
             (memory_store s)"
    and "disk_store s' =
           map_option (DiskStore_store cluster (dict_select data (registered_in ''disk'' s' (map fst data))))
             (disk_store s)"
    and "location = None \<Longrightarrow> dispatch s' = dispatch s"
proof -
  obtain s1 where s1: "(case location of
              None \<Rightarrow> Inr s
            | Some loc \<Rightarrow>
                if loc \<in> {''memory'', ''disk''} then register_fields (map fst data) loc s
                else (case check_location loc of Inl e \<Rightarrow> Inl e | Inr _ \<Rightarrow> Inr s)) = Inr s1"
    using assms unfolding Store_store_def by (auto split: sum.splits)
  have tiers: "memory_store s1 = memory_store s \<and> disk_store s1 = disk_store s"
    using s1 by (auto simp: check_location_def dest: register_fields_tiers split: option.splits if_splits)
  have s': "s' = (let data_memory = dict_select data (registered_in ''memory'' s1 (map fst data));
               s2 = s1\<lparr>memory_store := MemoryStore_store cluster data_memory (memory_store s1)\<rparr>
           in case disk_store s2 of
                None \<Rightarrow> s2
              | Some d \<Rightarrow>
                  (let data_disk = dict_select data (registered_in ''disk'' s2 (map fst data))
                   in s2\<lparr>disk_store := Some (DiskStore_store cluster data_disk d)\<rparr>))"
    using assms s1 unfolding Store_store_def by (auto simp: Let_def split: option.splits)
  have disp: "dispatch s' = dispatch s1"
    using s' by (simp add: Let_def split: option.splits)
  show "memory_store s' =
           MemoryStore_store cluster (dict_select data (registered_in ''memory'' s' (map fst data)))
             (memory_store s)"
    using s' tiers by (simp add: Let_def registered_in_def split: option.splits)
  show "disk_store s' =
           map_option (DiskStore_store cluster (dict_select data (registered_in ''disk'' s' (map fst data))))
             (disk_store s)"
    using s' tiers by (simp add: Let_def registered_in_def split: option.splits)
  show "location = None \<Longrightarrow> dispatch s' = dispatch s"
    using s1 disp by simp
qed

lemma Store_store_None_returns: "\<exists>s'. Store_store cluster None data s = Inr s'"
  by (simp add: Store_store_def Let_def split: option.splits)

text \<open>
  A \<^verbatim>\<open>Store\<close> built without a path has no disk store, and no method gives it one.
\<close>

lemma Store_without_path:
  "disk_store (Store_init None) = None"
  "disk_store s = None \<Longrightarrow> register_field name location s = Inr s' \<Longrightarrow> disk_store s' = None"
  "disk_store s = None \<Longrightarrow> Store_store cluster loc data s = Inr s' \<Longrightarrow> disk_store s' = None"
  "disk_store s = None \<Longrightarrow> disk_store (Store_delete clusters s) = None"
  "disk_store s = None \<Longrightarrow> disk_store (Store_clear s) = None"
proof -
  show "disk_store (Store_init None) = None"
    by (simp add: Store_init_def)
  show "disk_store s = None \<Longrightarrow> register_field name location s = Inr s' \<Longrightarrow> disk_store s' = None"
    by (auto simp: register_field_def split: sum.splits)
  show "disk_store s = None \<Longrightarrow> Store_store cluster loc data s = Inr s' \<Longrightarrow> disk_store s' = None"
    using Store_store_result(2) [of cluster loc data s s'] by simp
  show "disk_store s = None \<Longrightarrow> disk_store (Store_delete clusters s) = None"
    by (simp add: Store_delete_def)
  show "disk_store s = None \<Longrightarrow> disk_store (Store_clear s) = None"
    by (simp add: Store_clear_def)
qed

lemma map_of_dict_select_registered:
  "map_of (dict_select data (registered_in location s (map fst data))) key =
     (if map_of (dispatch s) key = Some location then map_of data key else None)"
proof (cases "key \<in> set (map fst data)")
  case True
  then show ?thesis by (simp add: map_of_dict_select registered_in_def)
next
  case False
  then have "map_of data key = None" by (simp add: map_of_eq_None_iff)
  with False show ?thesis by (simp add: map_of_dict_select registered_in_def)
qed

lemma Store_store_memory_record:
  assumes "Store_store cluster location data s = Inr s'"
  shows "map_of (dict_get [] (ds (memory_store s')) cluster) key =
           (if map_of (dispatch s') key = Some ''memory'' \<and> map_of data key \<noteq> None
            then map_of data key
            else map_of (dict_get [] (ds (memory_store s)) cluster) key)"
  by (simp add: Store_store_result(1) [OF assms] MemoryStore_store_record
      map_of_dict_update_distinct distinct_dict_select map_of_dict_select_registered
      split: option.splits)

lemma Store_store_disk_record:
  assumes "Store_store cluster location data s = Inr s'" and "disk_store s = Some d"
  shows "\<exists>d'. disk_store s' = Some d'
           \<and> cluster \<in> set (map fst (files d'))
           \<and> (\<forall>key. map_of (dict_get [] (files d') cluster) key =
                 (if map_of (dispatch s') key = Some ''disk'' \<and> map_of data key \<noteq> None
                  then map_of data key
                  else map_of (dict_get [] (files d) cluster) key))"
proof -
  let ?dd = "dict_select data (registered_in ''disk'' s' (map fst data))"
  have d': "disk_store s' = Some (DiskStore_store cluster ?dd d)"
    using Store_store_result(2) [OF assms(1)] assms(2) by simp
  have "cluster \<in> set (map fst (files (DiskStore_store cluster ?dd d)))"
    using dom_update [of cluster _ "files d"] by (simp add: DiskStore_store_def Let_def)
  with d' show ?thesis
    by (simp add: DiskStore_store_record map_of_dict_update_distinct distinct_dict_select
        map_of_dict_select_registered split: option.splits)
qed

text \<open>
  Claim C4, as amended. \<^verbatim>\<open>Store.store\<close> with \<^verbatim>\<open>location=None\<close> returns normally
  whatever fields it is given, and leaves the routing table as it was. A field that is not
  registered is stored in neither tier: the cluster's record in memory holds, for every
  field that is not registered in memory, what it held before, and so does the cluster's
  file on disk for every field that is not registered on disk. A field registered in memory
  is written to the cluster's record in the memory store. A field registered on disk is
  written to the cluster's file when the store has a disk store; a store without a disk
  store stays without one, so that there the field is stored nowhere either.
\<close>

theorem Store_store_unregistered_dropped:
  "\<exists>s'. Store_store cluster None data s = Inr s'
      \<and> dispatch s' = dispatch s
      \<and> (\<forall>key. map_of (dispatch s) key \<noteq> Some ''memory'' \<longrightarrow>
             map_of (dict_get [] (ds (memory_store s')) cluster) key
               = map_of (dict_get [] (ds (memory_store s)) cluster) key)
      \<and> (\<forall>key v. map_of (dispatch s) key = Some ''memory'' \<longrightarrow> map_of data key = Some v \<longrightarrow>
             map_of (dict_get [] (ds (memory_store s')) cluster) key = Some v)
      \<and> (case disk_store s of
            None \<Rightarrow> disk_store s' = None
          | Some d \<Rightarrow>
              (\<exists>d'. disk_store s' = Some d'
                 \<and> (\<forall>key. map_of (dispatch s) key \<noteq> Some ''disk'' \<longrightarrow>
                        map_of (dict_get [] (files d') cluster) key
                          = map_of (dict_get [] (files d) cluster) key)
                 \<and> (\<forall>key v. map_of (dispatch s) key = Some ''disk'' \<longrightarrow> map_of data key = Some v \<longrightarrow>
                        map_of (dict_get [] (files d') cluster) key = Some v)))"
proof -
  obtain s' where s': "Store_store cluster None data s = Inr s'"
    using Store_store_None_returns by blast
  have disp: "dispatch s' = dispatch s"
    using Store_store_result(3) [OF s'] by simp
  have mem: "map_of (dict_get [] (ds (memory_store s')) cluster) key =
           (if map_of (dispatch s) key = Some ''memory'' \<and> map_of data key \<noteq> None
            then map_of data key
            else map_of (dict_get [] (ds (memory_store s)) cluster) key)" for key
    using Store_store_memory_record [OF s'] disp by simp
  have disk: "case disk_store s of
            None \<Rightarrow> disk_store s' = None
          | Some d \<Rightarrow>
              (\<exists>d'. disk_store s' = Some d'
                 \<and> (\<forall>key. map_of (dispatch s) key \<noteq> Some ''disk'' \<longrightarrow>
                        map_of (dict_get [] (files d') cluster) key
                          = map_of (dict_get [] (files d) cluster) key)
                 \<and> (\<forall>key v. map_of (dispatch s) key = Some ''disk'' \<longrightarrow> map_of data key = Some v \<longrightarrow>
                        map_of (dict_get [] (files d') cluster) key = Some v))"
  proof (cases "disk_store s")
    case None
    then show ?thesis using Store_store_result(2) [OF s'] by simp
  next
    case (Some d)
    from Store_store_disk_record [OF s' Some] disp Some show ?thesis by auto
  qed
  from s' disp mem disk show ?thesis by simp
qed

theorem Store_store_unregistered_dropped_witness:
  "map_of (dispatch ex_two_tier) ''x'' = None
   \<and> map_of (dispatch ex_two_tier) ''mean'' = Some ''memory''
   \<and> map_of (dispatch ex_two_tier) ''waveform'' = Some ''disk''
   \<and> Store_store 5 None ex_data ex_two_tier =
       Inr \<lparr>memory_store = \<lparr>ds = [(5, [(''mean'', Some 10), (''both'', Some 2)])]\<rparr>,
            disk_store = Some \<lparr>files = [(5, [(''both'', Some 3), (''waveform'', Some 12)])]\<rparr>,
            dispatch = [(''mean'', ''memory''), (''waveform'', ''disk'')]\<rparr>"
  using Store_store_unregistered_dropped [of 5 ex_data ex_two_tier]
  by (simp add: ex_two_tier_def ex_data_def Store_store_def registered_in_def dict_select_def
      MemoryStore_store_def DiskStore_store_def DiskStore_set_def dict_update_def dict_get_def)

text \<open>
  Claim C4 as stated fails for a field registered on disk in a store without a disk
  store: there \<^verbatim>\<open>store(5, waveform=4)\<close> returns and leaves the store as it was, so the
  field \<^verbatim>\<open>'waveform'\<close>, although routed, is forwarded to no tier.
\<close>

theorem Store_store_unregistered_dropped_counterexample:
  "map_of (dispatch ex_disk_field_nodisk) ''waveform'' = Some ''disk''
   \<and> Store_store 5 None [(''waveform'', Some 4)] ex_disk_field_nodisk = Inr ex_disk_field_nodisk
   \<and> disk_store ex_disk_field_nodisk = None
   \<and> MemoryStore_load 5 (KStr ''waveform'') (memory_store ex_disk_field_nodisk) = Inr (Value None)"
  by (simp add: ex_disk_field_nodisk_def Store_store_def registered_in_def dict_select_def
      MemoryStore_store_def dict_update_def MemoryStore_load_def dict_get_def)

lemma Store_load_KNone_map_of:
  assumes "distinct (map fst (dict_get [] (ds (memory_store s)) cluster))"
  shows "\<exists>out. Store_load cluster KNone s = Inr (Dict out)
           \<and> (\<forall>key. map_of out key =
                 (case disk_store s of
                    None \<Rightarrow> map_of (dict_get [] (ds (memory_store s)) cluster) key
                  | Some d \<Rightarrow>
                      (case map_of (dict_get [] (files d) cluster) key of
                         None \<Rightarrow> map_of (dict_get [] (ds (memory_store s)) cluster) key
                       | Some v \<Rightarrow> Some v)))"
proof -
  have ld: "Store_load cluster KNone s = Store_load_dicts cluster None s"
    by (simp add: Store_load_def)
  have fm: "Store_filter None loc s = None" for loc
    by (simp add: Store_filter_def)
  show ?thesis
  proof (cases "disk_store s")
    case None
    from map_of_merge_two [OF assms, of "[]"] None show ?thesis
      by (auto simp: ld fm Store_load_dicts_def MemoryStore_load_as_keys)
  next
    case (Some d)
    let ?dd = "dict_comp (\<lambda>key. dict_get None (dict_get [] (files d) cluster) key)
                 (map fst (dict_get [] (files d) cluster))"
    have "distinct (map fst ?dd)" by (rule distinct_dict_comp)
    from map_of_merge_two [OF assms this] Some show ?thesis
      by (auto simp: ld fm Store_load_dicts_def MemoryStore_load_as_keys DiskStore_load_as_keys
          map_of_dict_comp_keys)
  qed
qed

text \<open>
  Claim C6, as amended. Let \<^verbatim>\<open>store(cluster, location, **data)\<close> return, and let every
  field of \<open>data\<close> then be routed to a tier the store has: to memory, with no dataset of
  that name in the cluster's file on disk (a field has one location), or to disk in a
  store that has a disk store. Then \<^verbatim>\<open>load(cluster)\<close> returns a dictionary that holds
  every key of \<open>data\<close> with the value stored for it.
\<close>

theorem Store_store_load_round_trip:
  assumes stored: "Store_store cluster location data s = Inr s'"
    and dict: "distinct (map fst (dict_get [] (ds (memory_store s)) cluster))"
    and routed: "\<forall>key \<in> set (map fst data).
            (map_of (dispatch s') key = Some ''memory''
               \<and> (\<forall>d. disk_store s = Some d \<longrightarrow> key \<notin> set (map fst (dict_get [] (files d) cluster))))
          \<or> (map_of (dispatch s') key = Some ''disk'' \<and> disk_store s \<noteq> None)"
  shows "\<exists>out. Store_load cluster KNone s' = Inr (Dict out)
           \<and> (\<forall>key v. map_of data key = Some v \<longrightarrow> map_of out key = Some v)"
proof -
  let ?mem' = "dict_get [] (ds (memory_store s')) cluster"
  have "?mem' = dict_update (dict_get [] (ds (memory_store s)) cluster)
                  (dict_select data (registered_in ''memory'' s' (map fst data)))"
    by (simp add: Store_store_result(1) [OF stored] MemoryStore_store_record)
  with dict have "distinct (map fst ?mem')" by (simp add: distinct_dict_update)
  from Store_load_KNone_map_of [OF this] obtain out
    where out: "Store_load cluster KNone s' = Inr (Dict out)"
      and out_map: "\<And>key. map_of out key =
                 (case disk_store s' of
                    None \<Rightarrow> map_of ?mem' key
                  | Some d' \<Rightarrow>
                      (case map_of (dict_get [] (files d') cluster) key of
                         None \<Rightarrow> map_of ?mem' key
                       | Some v \<Rightarrow> Some v))"
    by blast
  have "map_of out key = Some v" if kv: "map_of data key = Some v" for key v
  proof -
    from kv have key: "key \<in> set (map fst data)"
      by (metis map_of_eq_None_iff option.distinct(1) set_map)
    show ?thesis
    proof (cases "disk_store s")
      case None
      with routed key have "map_of (dispatch s') key = Some ''memory''" by auto
      with Store_store_memory_record [OF stored, of key] kv
      have "map_of ?mem' key = Some v" by simp
      moreover from None have "disk_store s' = None"
        using Store_store_result(2) [OF stored] by simp
      ultimately show ?thesis by (simp add: out_map)
    next
      case (Some d)
      from Store_store_disk_record [OF stored Some] obtain d'
        where d': "disk_store s' = Some d'"
          and rec: "\<And>k. map_of (dict_get [] (files d') cluster) k =
                 (if map_of (dispatch s') k = Some ''disk'' \<and> map_of data k \<noteq> None
                  then map_of data k
                  else map_of (dict_get [] (files d) cluster) k)"
        by blast
      from routed key Some consider
          (memory) "map_of (dispatch s') key = Some ''memory''"
            "key \<notin> set (map fst (dict_get [] (files d) cluster))"
        | (disk) "map_of (dispatch s') key = Some ''disk''"
        by auto
      then show ?thesis
      proof cases
        case memory
        from memory(2) have "map_of (dict_get [] (files d) cluster) key = None"
          by (simp add: map_of_eq_None_iff)
        with memory(1) rec [of key] have "map_of (dict_get [] (files d') cluster) key = None"
          by simp
        moreover from Store_store_memory_record [OF stored, of key] kv memory(1)
        have "map_of ?mem' key = Some v" by simp
        ultimately show ?thesis by (simp add: out_map d')
      next
        case disk
        with rec [of key] kv have "map_of (dict_get [] (files d') cluster) key = Some v"
          by simp
        then show ?thesis by (simp add: out_map d')
      qed
    qed
  qed
  with out show ?thesis by blast
qed

theorem Store_store_load_round_trip_witness:
  "Store_store 5 None ex_round_trip_data ex_two_tier = Inr ex_two_tier_stored
   \<and> distinct (map fst (dict_get [] (ds (memory_store ex_two_tier)) 5))
   \<and> map_of (dispatch ex_two_tier_stored) ''mean'' = Some ''memory''
   \<and> map_of (dispatch ex_two_tier_stored) ''waveform'' = Some ''disk''
   \<and> disk_store ex_two_tier \<noteq> None
   \<and> (\<exists>out. Store_load 5 KNone ex_two_tier_stored = Inr (Dict out)
         \<and> map_of out ''mean'' = Some (Some 10) \<and> map_of out ''waveform'' = Some (Some 12))"
proof -
  have stored: "Store_store 5 None ex_round_trip_data ex_two_tier = Inr ex_two_tier_stored"
    by (simp add: ex_two_tier_def ex_round_trip_data_def ex_two_tier_stored_def Store_store_def
        registered_in_def dict_select_def MemoryStore_store_def DiskStore_store_def
        DiskStore_set_def dict_update_def dict_get_def)
  have dict: "distinct (map fst (dict_get [] (ds (memory_store ex_two_tier)) 5))"
    by (simp add: ex_two_tier_def dict_get_def)
  have routing: "map_of (dispatch ex_two_tier_stored) ''mean'' = Some ''memory''"
    "map_of (dispatch ex_two_tier_stored) ''waveform'' = Some ''disk''"
    "disk_store ex_two_tier \<noteq> None"
    by (simp_all add: ex_two_tier_stored_def ex_two_tier_def)
  have routed: "\<forall>key \<in> set (map fst ex_round_trip_data).
            (map_of (dispatch ex_two_tier_stored) key = Some ''memory''
               \<and> (\<forall>d. disk_store ex_two_tier = Some d \<longrightarrow>
                      key \<notin> set (map fst (dict_get [] (files d) 5))))
          \<or> (map_of (dispatch ex_two_tier_stored) key = Some ''disk''
               \<and> disk_store ex_two_tier \<noteq> None)"
    by (auto simp: ex_round_trip_data_def ex_two_tier_stored_def ex_two_tier_def dict_get_def)
  from Store_store_load_round_trip [OF stored dict routed] obtain out
    where "Store_load 5 KNone ex_two_tier_stored = Inr (Dict out)"
      and "\<And>key v. map_of ex_round_trip_data key = Some v \<Longrightarrow> map_of out key = Some v"
    by blast
  then have "\<exists>out. Store_load 5 KNone ex_two_tier_stored = Inr (Dict out)
         \<and> map_of out ''mean'' = Some (Some 10) \<and> map_of out ''waveform'' = Some (Some 12)"
    by (simp add: ex_round_trip_data_def)
  with stored dict routing show ?thesis by simp
qed

text \<open>
  Claim C6 as stated fails in a store without a disk store: \<^verbatim>\<open>store(5, location='disk',
  waveform=4)\<close> on a new \<^verbatim>\<open>Store()\<close> registers the field on disk and returns, and the
  \<^verbatim>\<open>load(5)\<close> that follows returns \<^verbatim>\<open>{}\<close>, without the key \<^verbatim>\<open>'waveform'\<close>.
\<close>

theorem Store_store_load_round_trip_counterexample:
  "Store_store 5 (Some ''disk'') [(''waveform'', Some 4)] (Store_init None) = Inr ex_disk_field_dropped
   \<and> Store_load 5 KNone ex_disk_field_dropped = Inr (Dict [])"
  by (simp add: ex_disk_field_dropped_def Store_store_def Store_init_def MemoryStore_init_def
      register_field_def check_location_def registered_in_def dict_select_def
      MemoryStore_store_def dict_update_def Store_load_def Store_load_dicts_def
      Store_filter_def as_keys_def MemoryStore_load_def dict_get_def concatenate_dicts_def)

section \<open>Updating the cluster store\<close>

lemma fold_delete_keys:
  "set (map fst (fold (\<lambda>cluster d. if cluster \<in> set (map fst d) then AList.delete cluster d else d)
                   clusters d0))
     = set (map fst d0) - set clusters"
proof (induction clusters arbitrary: d0)
  case Nil
  show ?case by simp
next
  case (Cons c clusters)
  have "set (map fst (AList.delete c d0)) = set (map fst d0) - {c}"
    by (simp only: delete_keys set_removeAll)
  with Cons [of "AList.delete c d0"] Cons [of d0] show ?case
    by (cases "c \<in> set (map fst d0)") auto
qed

lemma MemoryStore_delete_clusters:
  "set (MemoryStore_clusters (MemoryStore_delete clusters m))
     = set (MemoryStore_clusters m) - set clusters"
  using fold_delete_keys [of clusters "ds m"]
  by (simp add: MemoryStore_delete_def)

lemma DiskStore_delete_files:
  "files (DiskStore_delete clusters d)
     = fold (\<lambda>cluster f. if cluster \<in> set (map fst f) then AList.delete cluster f else f)
         clusters (files d)"
  unfolding DiskStore_delete_def
  by (induction clusters arbitrary: d) (simp_all add: cluster_file_exists_def)

lemma DiskStore_delete_clusters:
  "set (DiskStore_clusters (DiskStore_delete clusters d))
     = set (DiskStore_clusters d) - set clusters"
  using fold_delete_keys [of clusters "files d"]
  by (simp add: DiskStore_delete_files)

lemma Store_delete_tiers:
  "set (MemoryStore_clusters (memory_store (Store_delete clusters s)))
     = set (MemoryStore_clusters (memory_store s)) - set clusters"
  "disk_store s = None \<Longrightarrow> disk_store (Store_delete clusters s) = None"
  "disk_store s = Some d \<Longrightarrow>
     disk_store (Store_delete clusters s) = Some (DiskStore_delete clusters d)"
  using MemoryStore_delete_clusters [of clusters "memory_store s"]
  by (simp_all add: Store_delete_def Let_def split: option.splits)

text \<open>
  Claim C5. \<^verbatim>\<open>ClusterStore.update\<close> first deletes the clusters \<^verbatim>\<open>up.deleted\<close> from
  the store: for the description \<^verbatim>\<open>'merge'\<close> it is \<^verbatim>\<open>merge\<close>, and for \<^verbatim>\<open>'assign'\<close>
  it is \<^verbatim>\<open>assign\<close>, run on the cluster store after that deletion, in which no deleted
  cluster is left in the memory store or in the disk store. For any other description
  \<^verbatim>\<open>update\<close> raises \<^verbatim>\<open>NotImplementedError\<close>.
\<close>

theorem ClusterStore_update_dispatch:
  "(description up = ''merge'' \<longrightarrow>
      ClusterStore_update up cs
        = ClusterStore_merge up (cs\<lparr>cs_store := Store_delete (deleted up) (cs_store cs)\<rparr>))
   \<and> (description up = ''assign'' \<longrightarrow>
      ClusterStore_update up cs
        = ClusterStore_assign up (cs\<lparr>cs_store := Store_delete (deleted up) (cs_store cs)\<rparr>))
   \<and> (description up \<noteq> ''merge'' \<longrightarrow> description up \<noteq> ''assign'' \<longrightarrow>
      fst (ClusterStore_update up cs) = Some NotImplementedError)
   \<and> (\<forall>cluster \<in> set (deleted up).
        cluster \<notin> set (MemoryStore_clusters (memory_store (Store_delete (deleted up) (cs_store cs))))
      \<and> (\<forall>d. disk_store (Store_delete (deleted up) (cs_store cs)) = Some d \<longrightarrow>
             cluster \<notin> set (DiskStore_clusters d)))"
proof -
  have "cluster \<notin> set (DiskStore_clusters d)"
    if "cluster \<in> set (deleted up)"
      and "disk_store (Store_delete (deleted up) (cs_store cs)) = Some d" for cluster d
  proof (cases "disk_store (cs_store cs)")
    case None
    with that(2) show ?thesis by (simp add: Store_delete_tiers(2))
  next
    case (Some d0)
    with that(2) have "d = DiskStore_delete (deleted up) d0"
      by (simp add: Store_delete_tiers(3))
    with that(1) show ?thesis
      using DiskStore_delete_clusters [of "deleted up" d0] by simp
  qed
  moreover have "cluster \<notin> set (MemoryStore_clusters (memory_store (Store_delete (deleted up) (cs_store cs))))"
    if "cluster \<in> set (deleted up)" for cluster
    using that Store_delete_tiers(1) [of "deleted up" "cs_store cs"] by simp
  ultimately show ?thesis
    by (simp add: ClusterStore_update_def Let_def)
qed

text \<open>
  Claim C9. \<^verbatim>\<open>update\<close> is not atomic: for a description that is neither
  \<^verbatim>\<open>'merge'\<close> nor \<^verbatim>\<open>'assign'\<close> it raises \<^verbatim>\<open>NotImplementedError\<close> only after the
  clusters \<^verbatim>\<open>up.deleted\<close> have been removed from both tiers, so the cluster store it
  leaves behind differs from the one it was called on as soon as one of them was stored.
\<close>

theorem ClusterStore_update_not_atomic:
  assumes "description up \<noteq> ''merge''" and "description up \<noteq> ''assign''"
  shows "\<exists>cs'. ClusterStore_update up cs = (Some NotImplementedError, cs')
      \<and> set (MemoryStore_clusters (memory_store (cs_store cs')))
          = set (MemoryStore_clusters (memory_store (cs_store cs))) - set (deleted up)
      \<and> (case disk_store (cs_store cs) of
            None \<Rightarrow> disk_store (cs_store cs') = None
          | Some d \<Rightarrow>
              (\<exists>d'. disk_store (cs_store cs') = Some d'
                 \<and> set (DiskStore_clusters d') = set (DiskStore_clusters d) - set (deleted up)))
      \<and> ((\<exists>cluster \<in> set (deleted up).
             cluster \<in> set (MemoryStore_clusters (memory_store (cs_store cs)))) \<longrightarrow> cs' \<noteq> cs)"
proof -
  let ?cs' = "cs\<lparr>cs_store := Store_delete (deleted up) (cs_store cs)\<rparr>"
  have up: "ClusterStore_update up cs = (Some NotImplementedError, ?cs')"
    using assms by (simp add: ClusterStore_update_def Let_def)
  have mem: "set (MemoryStore_clusters (memory_store (cs_store ?cs')))
          = set (MemoryStore_clusters (memory_store (cs_store cs))) - set (deleted up)"
    using Store_delete_tiers(1) [of "deleted up" "cs_store cs"] by simp
  have disk: "case disk_store (cs_store cs) of
            None \<Rightarrow> disk_store (cs_store ?cs') = None
          | Some d \<Rightarrow>
              (\<exists>d'. disk_store (cs_store ?cs') = Some d'
                 \<and> set (DiskStore_clusters d') = set (DiskStore_clusters d) - set (deleted up))"
  proof (cases "disk_store (cs_store cs)")
    case None
    then show ?thesis by (simp add: Store_delete_tiers(2))
  next
    case (Some d)
    with DiskStore_delete_clusters [of "deleted up" d] show ?thesis
      by (simp add: Store_delete_tiers(3))
  qed
  have changed: "?cs' \<noteq> cs"
    if "\<exists>cluster \<in> set (deleted up).
             cluster \<in> set (MemoryStore_clusters (memory_store (cs_store cs)))"
  proof
    assume "?cs' = cs"
    then have "set (MemoryStore_clusters (memory_store (cs_store ?cs')))
          = set (MemoryStore_clusters (memory_store (cs_store cs)))" by simp
    with mem that show False by blast
  qed
  from up mem disk changed show ?thesis by blast
qed

lemmas ex_update_defs =
  ex_up_def ex_cluster_store_def ex_spikes_item_def ClusterStore_update_def
  ClusterStore_merge_def ClusterStore_assign_def StoreItem_merge_def StoreItem_assign_def
  Store_delete_def MemoryStore_delete_def MemoryStore_clusters_def Store_store_def
  registered_in_def dict_select_def MemoryStore_store_def dict_update_def Let_def

theorem ClusterStore_update_dispatch_witness:
  "description (ex_up ''assign'') = ''assign''
   \<and> fst (ClusterStore_update (ex_up ''assign'') ex_cluster_store) = None
   \<and> ds (memory_store (cs_store (snd (ClusterStore_update (ex_up ''assign'') ex_cluster_store))))
       = [(2, [(''spikes_square'', Some [144])]), (3, [(''spikes_square'', Some [100, 121])])]
   \<and> description (ex_up ''merge'') = ''merge''
   \<and> fst (ClusterStore_update (ex_up ''merge'') ex_cluster_store) = None
   \<and> description (ex_up ''split'') \<noteq> ''merge'' \<and> description (ex_up ''split'') \<noteq> ''assign''
   \<and> fst (ClusterStore_update (ex_up ''split'') ex_cluster_store) = Some NotImplementedError
   \<and> 1 \<in> set (deleted (ex_up ''assign''))
   \<and> 1 \<notin> set (MemoryStore_clusters
                 (memory_store (Store_delete (deleted (ex_up ''assign'')) (cs_store ex_cluster_store))))"
  using ClusterStore_update_dispatch [of "ex_up ''assign''" ex_cluster_store]
    ClusterStore_update_dispatch [of "ex_up ''merge''" ex_cluster_store]
    ClusterStore_update_dispatch [of "ex_up ''split''" ex_cluster_store]
  by (simp add: ex_update_defs)

theorem ClusterStore_update_not_atomic_witness:
  "description (ex_up ''split'') \<noteq> ''merge'' \<and> description (ex_up ''split'') \<noteq> ''assign''
   \<and> fst (ClusterStore_update (ex_up ''split'') ex_cluster_store) = Some NotImplementedError
   \<and> MemoryStore_clusters (memory_store (cs_store ex_cluster_store)) = [1, 2]
   \<and> MemoryStore_clusters
         (memory_store (cs_store (snd (ClusterStore_update (ex_up ''split'') ex_cluster_store)))) = [2]"
  using ClusterStore_update_not_atomic [of "ex_up ''split''" ex_cluster_store]
  by (simp add: ex_update_defs)

section \<open>Loading from the cluster store\<close>

lemma as_arrays_Cons_Inr:
  "as_arrays (v # vs) = Inr per \<Longrightarrow>
     \<exists>a per'. v = Value (Some a) \<and> as_arrays vs = Inr per' \<and> per = a # per'"
  by (cases "v # vs" rule: as_arrays.cases) (auto split: sum.splits)

lemma load_each_as_arrays:
  "load_each name ids s = Inr vs \<Longrightarrow> as_arrays vs = Inr per \<Longrightarrow>
     list_all2 (\<lambda>cluster a. Store_load cluster (KStr name) s = Inr (Value (Some a))) ids per"
proof (induction ids arbitrary: vs per)
  case Nil
  then show ?case by auto
next
  case (Cons c ids)
  from Cons.prems(1) obtain v vs' where v: "Store_load c (KStr name) s = Inr v"
    and vs': "load_each name ids s = Inr vs'" and vs: "vs = v # vs'"
    by (auto split: sum.splits)
  from Cons.prems(2) vs obtain a per' where a: "v = Value (Some a)"
    and per': "as_arrays vs' = Inr per'" and per: "per = a # per'"
    by (auto dest: as_arrays_Cons_Inr)
  from Cons.IH [OF vs' per'] v a per show ?case by simp
qed

lemma list_all2_load_each:
  "list_all2 (\<lambda>cluster a. Store_load cluster (KStr name) s = Inr (Value (Some a))) ids per \<Longrightarrow>
     load_each name ids s = Inr (map (\<lambda>a. Value (Some a)) per)"
  by (induction rule: list_all2_induct) simp_all

lemma as_arrays_map: "as_arrays (map (\<lambda>a. Value (Some a)) per) = Inr per"
  by (induction per) simp_all

lemma spikes_each_list_all2:
  "spikes_each spc ids = Inr per \<longleftrightarrow>
     list_all2 (\<lambda>cluster sp. map_of spc cluster = Some sp) ids per"
proof (induction ids arbitrary: per)
  case Nil
  show ?case by auto
next
  case (Cons c ids)
  show ?case
    by (cases per) (auto simp: Cons.IH [symmetric] split: option.splits sum.splits)
qed

lemma load_arrays_Inr:
  "load_arrays name ids cs = Inr arrays \<longleftrightarrow>
     ids \<noteq> [] \<and>
     (\<exists>per. list_all2 (\<lambda>cluster a. Store_load cluster (KStr name) (cs_store cs) = Inr (Value (Some a)))
              ids per
          \<and> arrays = concat per)"
proof
  assume l: "load_arrays name ids cs = Inr arrays"
  then obtain vs per where vs: "load_each name ids (cs_store cs) = Inr vs"
    and per: "as_arrays vs = Inr per" and c: "np_concatenate per = Inr arrays"
    by (auto simp: load_arrays_def split: sum.splits)
  from c have "per \<noteq> []" and "arrays = concat per"
    by (auto simp: np_concatenate_def split: if_splits)
  moreover from load_each_as_arrays [OF vs per]
  have la: "list_all2 (\<lambda>cluster a. Store_load cluster (KStr name) (cs_store cs) = Inr (Value (Some a)))
              ids per" .
  moreover from la have "length ids = length per" by (rule list_all2_lengthD)
  ultimately show "ids \<noteq> [] \<and>
     (\<exists>per. list_all2 (\<lambda>cluster a. Store_load cluster (KStr name) (cs_store cs) = Inr (Value (Some a)))
              ids per
          \<and> arrays = concat per)"
    by auto
next
  assume "ids \<noteq> [] \<and>
     (\<exists>per. list_all2 (\<lambda>cluster a. Store_load cluster (KStr name) (cs_store cs) = Inr (Value (Some a)))
              ids per
          \<and> arrays = concat per)"
  then obtain per where ne: "ids \<noteq> []"
    and la: "list_all2 (\<lambda>cluster a. Store_load cluster (KStr name) (cs_store cs) = Inr (Value (Some a)))
              ids per"
    and ar: "arrays = concat per"
    by blast
  from la ne have "per \<noteq> []" by (auto dest: list_all2_lengthD)
  with list_all2_load_each [OF la] ar show "load_arrays name ids cs = Inr arrays"
    by (simp add: load_arrays_def as_arrays_map np_concatenate_def)
qed

lemma load_spike_clusters_Inr:
  "load_spike_clusters ids cs = Inr spike_clusters \<longleftrightarrow>
     ids \<noteq> [] \<and>
     (\<exists>per. list_all2 (\<lambda>cluster sp. map_of (cs_spikes_per_cluster cs) cluster = Some sp) ids per
          \<and> spike_clusters = concat per)"
proof -
  have "per \<noteq> [] \<longleftrightarrow> ids \<noteq> []"
    if "list_all2 (\<lambda>cluster sp. map_of (cs_spikes_per_cluster cs) cluster = Some sp) ids per"
    for per
    using that by (auto dest: list_all2_lengthD)
  then show ?thesis
    by (auto simp: load_spike_clusters_def np_concatenate_def spikes_each_list_all2 [symmetric]
        split: sum.splits if_splits)
qed

lemma all_in1d_iff: "all_in1d xs ys \<longleftrightarrow> set xs \<subseteq> set ys"
  by (auto simp: all_in1d_def list_all_iff)

lemma ClusterStore_load_Inr:
  assumes "ClusterStore_load name ids members cs = Inr r"
  shows "\<exists>store_clusters arrays spike_clusters.
            Store_clusters (cs_store cs) = Inr store_clusters
          \<and> set ids \<subseteq> set store_clusters
          \<and> load_arrays name ids cs = Inr arrays
          \<and> load_spike_clusters ids cs = Inr spike_clusters
          \<and> set members \<subseteq> set spike_clusters
          \<and> (\<forall>m \<in> set members. position_in spike_clusters m < length arrays)
          \<and> r = map (\<lambda>m. arrays ! position_in spike_clusters m) members"
  using assms
  by (auto simp: ClusterStore_load_def all_in1d_iff take_rows_def index_of_def list_all_iff
      split: sum.splits if_splits)

lemma position_in_less: "x \<in> set xs \<Longrightarrow> position_in xs x < length xs"
  by (induction xs) auto

lemma nth_position_in: "x \<in> set xs \<Longrightarrow> xs ! position_in xs x = x"
  by (induction xs) auto




text \<open>
  Claim C2, as amended. \<^verbatim>\<open>ClusterStore.load(name, clusters, spikes)\<close> concatenates the
  arrays \<^verbatim>\<open>Store.load(cluster, name)\<close> across \<^verbatim>\<open>clusters\<close> in the order in which the
  argument lists the ids (ascending only when the caller passes them sorted), and the
  spike indices of these clusters in that same order; the result is read off these two
  concatenations. A requested spike index that belongs to none of the clusters makes the
  call fail.
\<close>

theorem ClusterStore_load_concatenates:
  "(load_arrays name ids cs = Inr arrays \<longrightarrow>
      (\<exists>per_arrays.
          list_all2 (\<lambda>cluster a. Store_load cluster (KStr name) (cs_store cs) = Inr (Value (Some a)))
            ids per_arrays
        \<and> arrays = concat per_arrays))
   \<and> (load_spike_clusters ids cs = Inr spike_clusters \<longrightarrow>
      (\<exists>per_spikes.
          list_all2 (\<lambda>cluster sp. map_of (cs_spikes_per_cluster cs) cluster = Some sp) ids per_spikes
        \<and> spike_clusters = concat per_spikes))
   \<and> (ClusterStore_load name ids members cs = Inr r \<longrightarrow>
      (\<exists>arrays spike_clusters.
          load_arrays name ids cs = Inr arrays
        \<and> load_spike_clusters ids cs = Inr spike_clusters
        \<and> length r = length members
        \<and> (\<forall>j < length members. \<exists>p < length arrays.
               p < length spike_clusters \<and> spike_clusters ! p = members ! j \<and> r ! j = arrays ! p)))
   \<and> ((\<exists>m \<in> set members. \<forall>cluster \<in> set ids. \<forall>sp.
         map_of (cs_spikes_per_cluster cs) cluster = Some sp \<longrightarrow> m \<notin> set sp) \<longrightarrow>
      (\<exists>e. ClusterStore_load name ids members cs = Inl e))"
proof (intro conjI impI)
  assume "load_arrays name ids cs = Inr arrays"
  then show "\<exists>per_arrays.
          list_all2 (\<lambda>cluster a. Store_load cluster (KStr name) (cs_store cs) = Inr (Value (Some a)))
            ids per_arrays
        \<and> arrays = concat per_arrays"
    by (simp add: load_arrays_Inr)
next
  assume "load_spike_clusters ids cs = Inr spike_clusters"
  then show "\<exists>per_spikes.
          list_all2 (\<lambda>cluster sp. map_of (cs_spikes_per_cluster cs) cluster = Some sp) ids per_spikes
        \<and> spike_clusters = concat per_spikes"
    by (simp add: load_spike_clusters_Inr)
next
  assume "ClusterStore_load name ids members cs = Inr r"
  from ClusterStore_load_Inr [OF this] obtain arrays spike_clusters
    where arrays: "load_arrays name ids cs = Inr arrays"
      and sc: "load_spike_clusters ids cs = Inr spike_clusters"
      and sub: "set members \<subseteq> set spike_clusters"
      and bound: "\<And>m. m \<in> set members \<Longrightarrow> position_in spike_clusters m < length arrays"
      and r: "r = map (\<lambda>m. arrays ! position_in spike_clusters m) members"
    by blast
  have "\<exists>p < length arrays.
          p < length spike_clusters \<and> spike_clusters ! p = members ! j \<and> r ! j = arrays ! p"
    if "j < length members" for j
  proof -
    let ?p = "position_in spike_clusters (members ! j)"
    from that have m: "members ! j \<in> set members" by simp
    with sub have "members ! j \<in> set spike_clusters" by blast
    then have "?p < length spike_clusters" and "spike_clusters ! ?p = members ! j"
      by (simp_all add: position_in_less nth_position_in)
    with bound [OF m] that r show ?thesis by auto
  qed
  with arrays sc r
  show "\<exists>arrays spike_clusters.
          load_arrays name ids cs = Inr arrays
        \<and> load_spike_clusters ids cs = Inr spike_clusters
        \<and> length r = length members
        \<and> (\<forall>j < length members. \<exists>p < length arrays.
               p < length spike_clusters \<and> spike_clusters ! p = members ! j \<and> r ! j = arrays ! p)"
    by auto
next
  assume "\<exists>m \<in> set members. \<forall>cluster \<in> set ids. \<forall>sp.
         map_of (cs_spikes_per_cluster cs) cluster = Some sp \<longrightarrow> m \<notin> set sp"
  then obtain m where m: "m \<in> set members"
    and absent: "\<And>cluster sp. cluster \<in> set ids \<Longrightarrow>
         map_of (cs_spikes_per_cluster cs) cluster = Some sp \<Longrightarrow> m \<notin> set sp"
    by blast
  show "\<exists>e. ClusterStore_load name ids members cs = Inl e"
  proof (cases "ClusterStore_load name ids members cs")
    case (Inl e)
    then show ?thesis by blast
  next
    case (Inr r)
    from ClusterStore_load_Inr [OF Inr] obtain spike_clusters
      where sc: "load_spike_clusters ids cs = Inr spike_clusters"
        and sub: "set members \<subseteq> set spike_clusters"
      by blast
    from sc obtain per_spikes
      where la: "list_all2 (\<lambda>cluster sp. map_of (cs_spikes_per_cluster cs) cluster = Some sp)
                   ids per_spikes"
        and cc: "spike_clusters = concat per_spikes"
      by (auto simp: load_spike_clusters_Inr)
    from m sub cc obtain sp where sp: "sp \<in> set per_spikes" and msp: "m \<in> set sp" by auto
    from sp obtain i where i: "i < length per_spikes" and spi: "per_spikes ! i = sp"
      by (auto simp: in_set_conv_nth)
    from la i have "i < length ids" by (simp add: list_all2_lengthD)
    moreover from la i spi have "map_of (cs_spikes_per_cluster cs) (ids ! i) = Some sp"
      by (auto simp: list_all2_conv_all_nth)
    ultimately have "m \<notin> set sp" using absent [of "ids ! i" sp] by simp
    with msp show ?thesis by contradiction
  qed
qed



lemmas ex_load_defs =
  ClusterStore_load_def Store_clusters_def MemoryStore_clusters_def all_in1d_def
  load_arrays_def load_spike_clusters_def np_concatenate_def Store_load_def
  MemoryStore_load_def dict_get_def index_of_def take_rows_def


theorem ClusterStore_load_concatenates_witness:
  "load_arrays ''spikes_square'' [2, 1] ex_cluster_store = Inr [144, 100, 121]
   \<and> load_spike_clusters [2, 1] ex_cluster_store = Inr [12, 10, 11]
   \<and> ClusterStore_load ''spikes_square'' [2, 1] [10, 12] ex_cluster_store = Inr [100, 144]
   \<and> map_of (cs_spikes_per_cluster ex_cluster_store) 2 = Some [12]
   \<and> map_of (cs_spikes_per_cluster ex_cluster_store) 1 = Some [10, 11]
   \<and> 99 \<notin> set [12 :: int] \<and> 99 \<notin> set [10, 11 :: int]
   \<and> ClusterStore_load ''spikes_square'' [2, 1] [10, 99] ex_cluster_store = Inl AssertionError"
  using ClusterStore_load_concatenates [of "''spikes_square''" "[2, 1]" ex_cluster_store
      "[144, 100, 121]" "[12, 10, 11]" "[10, 12]" "[100, 144]"]
    ClusterStore_load_concatenates [of "''spikes_square''" "[2, 1]" ex_cluster_store
      "[144, 100, 121]" "[12, 10, 11]" "[10, 99]" "[]"]
  by (simp add: ex_load_defs ex_cluster_store_def)

text \<open>
  Claim C2 as stated fails for ids that are not passed in ascending order: for the ids
  \<^verbatim>\<open>[2, 1]\<close> the arrays and the spike indices of cluster 2 come first, where the
  ascending order would put those of cluster 1 first.
\<close>

theorem ClusterStore_load_concatenates_counterexample:
  "load_arrays ''spikes_square'' [2, 1] ex_cluster_store = Inr [144, 100, 121]
   \<and> load_arrays ''spikes_square'' (sort [2, 1]) ex_cluster_store = Inr [100, 121, 144]
   \<and> load_spike_clusters [2, 1] ex_cluster_store = Inr [12, 10, 11]
   \<and> load_spike_clusters (sort [2, 1]) ex_cluster_store = Inr [10, 11, 12]"
  by (simp add: ex_load_defs ex_cluster_store_def)



end
